theory Spec2Isabelle
  imports Main "HOL-Library.Word" "HOL-Library.AList"
begin

section \<open>JavaScript strings\<close>

text \<open>
  A JavaScript string is a sequence of UTF-16 code units. \<^verbatim>\<open>value.length\<close>,
  \<^verbatim>\<open>split('')\<close>, \<^verbatim>\<open>includes\<close> and the regular expressions of the service (none has
  the \<^verbatim>\<open>u\<close> flag) work on code units; \<^verbatim>\<open>for (const char of value)\<close> and
  \<^verbatim>\<open>new Set(value)\<close> use the string iterator, which yields code points: a lead
  surrogate followed by a trail surrogate is one element, two code units long.
  JavaScript numbers are modelled by \<^typ>\<open>int\<close>; the arithmetic of the service
  (\<^verbatim>\<open>parseInt\<close>, \<^verbatim>\<open>+ 1\<close>, \<^verbatim>\<open>- 1\<close>, counting) is exact on them up to \<open>2^53\<close>.
\<close>

type_synonym codeunit = "16 word"
type_synonym jsstring = "codeunit list"

text \<open>A string literal of the source, written with HOL characters (one code unit each).\<close>

definition js :: "string \<Rightarrow> jsstring" where
  "js s = map (\<lambda>c. of_nat (of_char c)) s"

definition isLeadSurrogate :: "codeunit \<Rightarrow> bool" where
  "isLeadSurrogate u = (0xD800 \<le> u \<and> u \<le> 0xDBFF)"

definition isTrailSurrogate :: "codeunit \<Rightarrow> bool" where
  "isTrailSurrogate u = (0xDC00 \<le> u \<and> u \<le> 0xDFFF)"

text \<open>The string iterator (\<^verbatim>\<open>for ... of\<close>, \<^verbatim>\<open>new Set(value)\<close>).\<close>

fun codePoints :: "jsstring \<Rightarrow> jsstring list" where
  "codePoints [] = []"
| "codePoints [x] = [[x]]"
| "codePoints (x # y # r) =
     (if isLeadSurrogate x \<and> isTrailSurrogate y then [x, y] # codePoints r
      else [x] # codePoints (y # r))"

text \<open>
  The class \<^verbatim>\<open>\s\<close> of a regular expression, which is also what \<^verbatim>\<open>trim\<close> strips:
  WhiteSpace and LineTerminator of ECMAScript.
\<close>

definition isWhiteSpace :: "codeunit \<Rightarrow> bool" where
  "isWhiteSpace u =
     (u = 0x09 \<or> u = 0x0A \<or> u = 0x0B \<or> u = 0x0C \<or> u = 0x0D \<or> u = 0x20 \<or> u = 0xA0
      \<or> u = 0x1680 \<or> (0x2000 \<le> u \<and> u \<le> 0x200A) \<or> u = 0x2028 \<or> u = 0x2029
      \<or> u = 0x202F \<or> u = 0x205F \<or> u = 0x3000 \<or> u = 0xFEFF)"

text \<open>
  \<^verbatim>\<open>toLowerCase\<close> follows the Unicode case tables of the JavaScript engine. The
  model is that mapping on Basic Latin (\<^verbatim>\<open>A\<close>..\<^verbatim>\<open>Z\<close>); other code units are left as
  they are. Every general statement below about the interpreter is derived from a
  lemma about the folded text alone, whatever the folding.
\<close>

definition lowerUnit :: "codeunit \<Rightarrow> codeunit" where
  "lowerUnit u = (if 0x41 \<le> u \<and> u \<le> 0x5A then u + 0x20 else u)"

definition toLowerCase :: "jsstring \<Rightarrow> jsstring" where
  "toLowerCase s = map lowerUnit s"

definition trim :: "jsstring \<Rightarrow> jsstring" where
  "trim s = rev (dropWhile isWhiteSpace (rev (dropWhile isWhiteSpace s)))"

text \<open>
  \<^verbatim>\<open>s.split(/\s+/)\<close>: the pieces between the maximal runs of whitespace. The second
  argument is the piece being read. A run at the start or the end of the string
  leaves an empty piece there, and the empty string splits into one empty piece.
\<close>

function splitWs :: "jsstring \<Rightarrow> jsstring \<Rightarrow> jsstring list" where
  "splitWs [] cur = [cur]"
| "splitWs (x # xs) cur =
     (if isWhiteSpace x then cur # splitWs (dropWhile isWhiteSpace xs) []
      else splitWs xs (cur @ [x]))"
  by pat_completeness auto
termination
  by (relation "measure (\<lambda>(s, cur). length s)")
     (auto simp: length_dropWhile_le less_Suc_eq_le)

fun startsWith :: "jsstring \<Rightarrow> jsstring \<Rightarrow> bool" where
  "startsWith s [] = True"
| "startsWith [] (p # ps) = False"
| "startsWith (x # xs) (p # ps) = (x = p \<and> startsWith xs ps)"

text \<open>\<^verbatim>\<open>s.includes(sub)\<close>.\<close>

fun includes_str :: "jsstring \<Rightarrow> jsstring \<Rightarrow> bool" where
  "includes_str [] sub = (sub = [])"
| "includes_str (x # xs) sub = (startsWith (x # xs) sub \<or> includes_str xs sub)"


section \<open>The properties of a string\<close>

record StringProperties =
  length_p :: int
  is_palindrome :: bool
  unique_characters :: int
  word_count :: int
  sha256_hash :: jsstring
  character_frequency_map :: "(jsstring \<times> int) list"

text \<open>
  The frequency map is a JavaScript object used as a dictionary; it is an association
  list here, a new key going to the end. \<^verbatim>\<open>(m[char] || 0)\<close> is \<open>0\<close> for a key that is
  absent and for a stored \<open>0\<close>.
\<close>

definition orZero :: "int option \<Rightarrow> int" where
  "orZero v = (case v of None \<Rightarrow> 0 | Some n \<Rightarrow> if n = 0 then 0 else n)"

fun frequencyLoop :: "jsstring list \<Rightarrow> (jsstring \<times> int) list \<Rightarrow> (jsstring \<times> int) list" where
  "frequencyLoop [] m = m"
| "frequencyLoop (char # rest) m =
     frequencyLoop rest (AList.update char (orZero (map_of m char) + 1) m)"

text \<open>
  \<^verbatim>\<open>computeProperties\<close>. The SHA-256 digest comes from the platform's crypto library
  and is a parameter, \<open>sha256hex\<close>.
\<close>

definition computeProperties :: "(jsstring \<Rightarrow> jsstring) \<Rightarrow> jsstring \<Rightarrow> StringProperties" where
  "computeProperties sha256hex v =
     (let len = int (length v);
          normalizedValue = filter (\<lambda>u. \<not> isWhiteSpace u) (toLowerCase v);
          reversedValue = concat (rev (map (\<lambda>u. [u]) normalizedValue));
          palindrome = (normalizedValue = reversedValue);
          unique = int (length (remdups (codePoints v)));
          words = filter (\<lambda>word. length word > 0) (splitWs (trim v) []);
          wc = int (length words);
          hash = sha256hex v;
          freq = frequencyLoop (codePoints v) []
      in \<lparr> length_p = len, is_palindrome = palindrome, unique_characters = unique,
           word_count = wc, sha256_hash = hash, character_frequency_map = freq \<rparr>)"

text \<open>The sum of the values of a frequency map.\<close>

definition frequencySum :: "(jsstring \<times> int) list \<Rightarrow> int" where
  "frequencySum m = sum_list (map snd m)"

text \<open>
  The words of the specification: a token is a maximal run of non-whitespace code
  units, and it starts at an index that holds a non-whitespace unit and is either the
  first index or preceded by whitespace.
\<close>

definition tokenStarts :: "jsstring \<Rightarrow> nat list" where
  "tokenStarts s =
     filter (\<lambda>i. \<not> isWhiteSpace (s ! i) \<and> (i = 0 \<or> isWhiteSpace (s ! (i - 1)))) [0..<length s]"

text \<open>
  The same count, read from left to right: the flag says whether the position before
  the text is the start of the string or holds whitespace.
\<close>

fun runStarts :: "bool \<Rightarrow> jsstring \<Rightarrow> nat" where
  "runStarts p [] = 0"
| "runStarts p (x # xs) =
     (if \<not> isWhiteSpace x \<and> p then 1 else 0) + runStarts (isWhiteSpace x) xs"


section \<open>Regular expressions\<close>

text \<open>
  The regular expressions of the service use literal text, the classes \<^verbatim>\<open>\d\<close> and
  \<^verbatim>\<open>[a-z]\<close>, \<^verbatim>\<open>\d+\<close>, optional non-capturing groups, alternatives and one capturing
  group each. \<open>rx_ends\<close> lists the ways an expression matches at the start of a
  text, in the order in which the backtracking matcher of ECMAScript tries them
  (greedy first), each with the rest of the text and the capture of group 1.
\<close>

datatype regex =
    Lit jsstring
  | Class "codeunit \<Rightarrow> bool"
  | PlusClass "codeunit \<Rightarrow> bool"
  | Seq regex regex
  | Alt regex regex
  | Opt regex
  | Group regex

fun rx_ends :: "regex \<Rightarrow> jsstring \<Rightarrow> jsstring option \<Rightarrow> (jsstring \<times> jsstring option) list" where
  "rx_ends (Lit l) s c = (if startsWith s l then [(drop (length l) s, c)] else [])"
| "rx_ends (Class p) s c = (case s of [] \<Rightarrow> [] | x # xs \<Rightarrow> if p x then [(xs, c)] else [])"
| "rx_ends (PlusClass p) s c =
     map (\<lambda>n. (drop n s, c)) (rev [1..<Suc (length (takeWhile p s))])"
| "rx_ends (Seq a b) s c = concat (map (\<lambda>(s', c'). rx_ends b s' c') (rx_ends a s c))"
| "rx_ends (Alt a b) s c = rx_ends a s c @ rx_ends b s c"
| "rx_ends (Opt a) s c = rx_ends a s c @ [(s, c)]"
| "rx_ends (Group a) s c =
     map (\<lambda>(s', c'). (s', Some (take (length s - length s') s))) (rx_ends a s c)"

text \<open>
  \<^verbatim>\<open>text.match(re)\<close> for an expression without the \<^verbatim>\<open>g\<close> flag: the first way of
  matching at the leftmost position that has one. The result is \<open>None\<close> for \<^verbatim>\<open>null\<close>,
  and otherwise element \<^verbatim>\<open>[1]\<close> of the match array (\<open>None\<close> there is \<^verbatim>\<open>undefined\<close>).
\<close>

fun match_str :: "jsstring \<Rightarrow> regex \<Rightarrow> jsstring option option" where
  "match_str [] re = (case rx_ends re [] None of [] \<Rightarrow> None | (s', c) # _ \<Rightarrow> Some c)"
| "match_str (x # xs) re =
     (case rx_ends re (x # xs) None of [] \<Rightarrow> match_str xs re | (s', c) # _ \<Rightarrow> Some c)"

definition isDigit :: "codeunit \<Rightarrow> bool" where
  "isDigit u = (0x30 \<le> u \<and> u \<le> 0x39)"

definition isLowerLetter :: "codeunit \<Rightarrow> bool" where
  "isLowerLetter u = (0x61 \<le> u \<and> u \<le> 0x7A)"

text \<open>
  \<^verbatim>\<open>parseInt(s, 10)\<close> on a text that starts with a digit: the value of its leading
  digits. The service calls it on captures of \<^verbatim>\<open>\d+\<close> only.
\<close>

definition parseInt10 :: "jsstring \<Rightarrow> int" where
  "parseInt10 s = foldl (\<lambda>a u. 10 * a + uint (u - 0x30)) 0 (takeWhile isDigit s)"


section \<open>Filters and the interpreter of queries\<close>

record FilterStringsDto =
  is_palindrome_f :: "bool option"
  min_length :: "int option"
  max_length :: "int option"
  word_count_f :: "int option"
  contains_character :: "jsstring option"

definition emptyFilters :: FilterStringsDto where
  "emptyFilters = \<lparr> is_palindrome_f = None, min_length = None, max_length = None,
                     word_count_f = None, contains_character = None \<rparr>"

text \<open>\<^verbatim>\<open>/longer than (\d+)/\<close>\<close>

definition longerThanRx :: regex where
  "longerThanRx = Seq (Lit (js ''longer than '')) (Group (PlusClass isDigit))"

text \<open>\<^verbatim>\<open>/shorter than (\d+)/\<close>\<close>

definition shorterThanRx :: regex where
  "shorterThanRx = Seq (Lit (js ''shorter than '')) (Group (PlusClass isDigit))"

text \<open>\<^verbatim>\<open>/length (?:of )?(\d+)/\<close>\<close>

definition exactLengthRx :: regex where
  "exactLengthRx =
     Seq (Lit (js ''length '')) (Seq (Opt (Lit (js ''of ''))) (Group (PlusClass isDigit)))"

text \<open>\<^verbatim>\<open>/contain(?:ing|s)? (?:the )?(?:letter |character )?([a-z])/\<close>\<close>

definition containsLetterRx :: regex where
  "containsLetterRx =
     Seq (Lit (js ''contain''))
       (Seq (Opt (Alt (Lit (js ''ing'')) (Lit (js ''s''))))
         (Seq (Lit (js '' ''))
           (Seq (Opt (Lit (js ''the '')))
             (Seq (Opt (Alt (Lit (js ''letter '')) (Lit (js ''character ''))))
               (Group (Class isLowerLetter))))))"

text \<open>
  The steps of \<^verbatim>\<open>parseNaturalLanguageQuery\<close>, in the order of the source. Each takes
  the lower-cased query and the filters so far. In the four steps that read a match
  array, element \<^verbatim>\<open>[1]\<close> is always a text, since group 1 is not optional in any of the
  expressions (lemma \<open>match_str_captures\<close> below).
\<close>

definition detectPalindrome :: "jsstring \<Rightarrow> FilterStringsDto \<Rightarrow> FilterStringsDto" where
  "detectPalindrome lowerQuery filters =
     (if includes_str lowerQuery (js ''palindrom'')
         \<or> includes_str lowerQuery (js ''reads same forwards and backwards'')
      then filters\<lparr>is_palindrome_f := Some True\<rparr> else filters)"

definition detectWordCount :: "jsstring \<Rightarrow> FilterStringsDto \<Rightarrow> FilterStringsDto" where
  "detectWordCount lowerQuery filters =
     (if includes_str lowerQuery (js ''single word'') \<or> includes_str lowerQuery (js ''one word'')
      then filters\<lparr>word_count_f := Some 1\<rparr>
      else if includes_str lowerQuery (js ''two word'') \<or> includes_str lowerQuery (js ''2 word'')
      then filters\<lparr>word_count_f := Some 2\<rparr>
      else if includes_str lowerQuery (js ''three word'') \<or> includes_str lowerQuery (js ''3 word'')
      then filters\<lparr>word_count_f := Some 3\<rparr>
      else filters)"

definition detectLongerThan :: "jsstring \<Rightarrow> FilterStringsDto \<Rightarrow> FilterStringsDto" where
  "detectLongerThan lowerQuery filters =
     (case match_str lowerQuery longerThanRx of
        Some (Some n) \<Rightarrow> filters\<lparr>min_length := Some (parseInt10 n + 1)\<rparr>
      | _ \<Rightarrow> filters)"

definition detectShorterThan :: "jsstring \<Rightarrow> FilterStringsDto \<Rightarrow> FilterStringsDto" where
  "detectShorterThan lowerQuery filters =
     (case match_str lowerQuery shorterThanRx of
        Some (Some n) \<Rightarrow> filters\<lparr>max_length := Some (parseInt10 n - 1)\<rparr>
      | _ \<Rightarrow> filters)"

definition detectExactLength :: "jsstring \<Rightarrow> FilterStringsDto \<Rightarrow> FilterStringsDto" where
  "detectExactLength lowerQuery filters =
     (case match_str lowerQuery exactLengthRx of
        Some (Some n) \<Rightarrow>
          (let len = parseInt10 n in filters\<lparr>min_length := Some len, max_length := Some len\<rparr>)
      | _ \<Rightarrow> filters)"

definition detectContainsLetter :: "jsstring \<Rightarrow> FilterStringsDto \<Rightarrow> FilterStringsDto" where
  "detectContainsLetter lowerQuery filters =
     (case match_str lowerQuery containsLetterRx of
        Some (Some ch) \<Rightarrow> filters\<lparr>contains_character := Some ch\<rparr>
      | _ \<Rightarrow> filters)"

definition detectFirstVowel :: "jsstring \<Rightarrow> FilterStringsDto \<Rightarrow> FilterStringsDto" where
  "detectFirstVowel lowerQuery filters =
     (if includes_str lowerQuery (js ''first vowel'')
      then filters\<lparr>contains_character := Some (js ''a'')\<rparr> else filters)"

text \<open>The loop over the vowels, left at the first one that the query text includes.\<close>

fun vowelLoop :: "jsstring list \<Rightarrow> jsstring \<Rightarrow> FilterStringsDto \<Rightarrow> FilterStringsDto" where
  "vowelLoop [] lowerQuery filters = filters"
| "vowelLoop (vowel # rest) lowerQuery filters =
     (if includes_str lowerQuery vowel then filters\<lparr>contains_character := Some vowel\<rparr>
      else vowelLoop rest lowerQuery filters)"

definition vowels :: "jsstring list" where
  "vowels = [js ''a'', js ''e'', js ''i'', js ''o'', js ''u'']"

definition detectVowel :: "jsstring \<Rightarrow> FilterStringsDto \<Rightarrow> FilterStringsDto" where
  "detectVowel lowerQuery filters =
     (if includes_str lowerQuery (js ''vowel'') then vowelLoop vowels lowerQuery filters
      else filters)"

definition applyRules :: "jsstring \<Rightarrow> FilterStringsDto \<Rightarrow> FilterStringsDto" where
  "applyRules lowerQuery filters =
     detectVowel lowerQuery
       (detectFirstVowel lowerQuery
         (detectContainsLetter lowerQuery
           (detectExactLength lowerQuery
             (detectShorterThan lowerQuery
               (detectLongerThan lowerQuery
                 (detectWordCount lowerQuery
                   (detectPalindrome lowerQuery filters)))))))"

definition parseNaturalLanguageQuery :: "jsstring \<Rightarrow> FilterStringsDto" where
  "parseNaturalLanguageQuery query =
     (let filters = emptyFilters;
          lowerQuery = toLowerCase query
      in applyRules lowerQuery filters)"

text \<open>
  \<^verbatim>\<open>Object.keys(filters)\<close>: the names of the fields that were assigned. The source
  reads the number of keys only; they are listed in the order of the declaration.
\<close>

definition objectKeys :: "FilterStringsDto \<Rightarrow> string list" where
  "objectKeys filters =
     (case is_palindrome_f filters of None \<Rightarrow> [] | Some _ \<Rightarrow> [''is_palindrome'']) @
     (case min_length filters of None \<Rightarrow> [] | Some _ \<Rightarrow> [''min_length'']) @
     (case max_length filters of None \<Rightarrow> [] | Some _ \<Rightarrow> [''max_length'']) @
     (case word_count_f filters of None \<Rightarrow> [] | Some _ \<Rightarrow> [''word_count'']) @
     (case contains_character filters of None \<Rightarrow> [] | Some _ \<Rightarrow> [''contains_character''])"


section \<open>Stored records and the filter query\<close>

record AnalyzedString =
  id_s :: jsstring
  value_s :: jsstring
  properties :: StringProperties
  created_at :: int

datatype exception =
    ConflictException string
  | NotFoundException string
  | BadRequestException string

text \<open>
  The table \<^verbatim>\<open>analyzed_strings\<close> is the list of its rows. \<^verbatim>\<open>create\<close> takes the time
  that the database stamps on the new row.
\<close>

definition create ::
  "(jsstring \<Rightarrow> jsstring) \<Rightarrow> int \<Rightarrow> AnalyzedString list \<Rightarrow> jsstring
     \<Rightarrow> exception + AnalyzedString \<times> AnalyzedString list" where
  "create sha256hex now rows v =
     (case find (\<lambda>r. value_s r = v) rows of
        Some existing \<Rightarrow> Inl (ConflictException ''String already exists in the system'')
      | None \<Rightarrow>
          (let props = computeProperties sha256hex v;
               analyzedString = \<lparr> id_s = sha256_hash props, value_s = v, properties = props,
                                  created_at = now \<rparr>
           in Inr (analyzedString, rows @ [analyzedString])))"

text \<open>
  \<^verbatim>\<open>string.value LIKE :char\<close> is evaluated by PostgreSQL, on characters: in the
  pattern \<^verbatim>\<open>%\<close> stands for any run of characters, \<^verbatim>\<open>_\<close> for any one character, and a
  backslash makes the character after it literal. Pattern first, text second, both as
  lists of characters. PostgreSQL rejects a pattern that ends in a lone backslash;
  the patterns of \<^verbatim>\<open>findAll\<close> end in \<^verbatim>\<open>%\<close> (lemma \<open>likePatternOk_findAll\<close>).
\<close>

fun likeMatch :: "jsstring list \<Rightarrow> jsstring list \<Rightarrow> bool" where
  "likeMatch [] t = (t = [])"
| "likeMatch (p # ps) t =
     (if p = [0x25] then
        (likeMatch ps t \<or> (case t of [] \<Rightarrow> False | x # t' \<Rightarrow> likeMatch (p # ps) t'))
      else if p = [0x5F] then
        (case t of [] \<Rightarrow> False | x # t' \<Rightarrow> likeMatch ps t')
      else if p = [0x5C] then
        (case ps of [] \<Rightarrow> False
         | q # qs \<Rightarrow> (case t of [] \<Rightarrow> False | x # t' \<Rightarrow> x = q \<and> likeMatch qs t'))
      else
        (case t of [] \<Rightarrow> False | x # t' \<Rightarrow> x = p \<and> likeMatch ps t'))"

fun likePatternOk :: "jsstring list \<Rightarrow> bool" where
  "likePatternOk [] = True"
| "likePatternOk [p] = (p \<noteq> [0x5C])"
| "likePatternOk (p # q # ps) = (if p = [0x5C] then likePatternOk ps else likePatternOk (q # ps))"

text \<open>
  The query builder of \<^verbatim>\<open>findAll\<close>: each \<^verbatim>\<open>andWhere\<close> adds a condition on a row, and
  a row is selected when it meets all of them. \<^verbatim>\<open>filters.x !== undefined\<close> is
  \<open>x filters \<noteq> None\<close>; \<^verbatim>\<open>if (filters.contains_character)\<close> also skips the empty
  string.
\<close>

type_synonym queryBuilder = "(AnalyzedString \<Rightarrow> bool) list"

definition andWhere :: "queryBuilder \<Rightarrow> (AnalyzedString \<Rightarrow> bool) \<Rightarrow> queryBuilder" where
  "andWhere query cond = query @ [cond]"

definition buildQuery :: "FilterStringsDto \<Rightarrow> queryBuilder" where
  "buildQuery filters =
     (let query = [];
          query = (case is_palindrome_f filters of None \<Rightarrow> query
                   | Some b \<Rightarrow> andWhere query (\<lambda>r. is_palindrome (properties r) = b));
          query = (case min_length filters of None \<Rightarrow> query
                   | Some n \<Rightarrow> andWhere query (\<lambda>r. length_p (properties r) \<ge> n));
          query = (case max_length filters of None \<Rightarrow> query
                   | Some n \<Rightarrow> andWhere query (\<lambda>r. length_p (properties r) \<le> n));
          query = (case word_count_f filters of None \<Rightarrow> query
                   | Some n \<Rightarrow> andWhere query (\<lambda>r. word_count (properties r) = n));
          query = (case contains_character filters of None \<Rightarrow> query
                   | Some ch \<Rightarrow>
                       if ch = [] then query
                       else andWhere query (\<lambda>r.
                         likeMatch (codePoints (js ''%'' @ ch @ js ''%''))
                           (codePoints (value_s r))))
      in query)"

text \<open>The matcher: does the row meet the conditions that \<^verbatim>\<open>findAll\<close> builds.\<close>

definition matches :: "AnalyzedString \<Rightarrow> FilterStringsDto \<Rightarrow> bool" where
  "matches r filters = list_all (\<lambda>cond. cond r) (buildQuery filters)"

record findAllResult =
  data :: "AnalyzedString list"
  count :: int
  filters_applied :: FilterStringsDto

text \<open>
  \<^verbatim>\<open>orderBy('string.created_at', 'DESC')\<close>; the order among rows of the same time is
  the database's, and is taken here to be that of the table.
\<close>

definition findAll :: "AnalyzedString list \<Rightarrow> FilterStringsDto \<Rightarrow> findAllResult" where
  "findAll rows filters =
     (let query = buildQuery filters;
          found = sort_key (\<lambda>r. - created_at r) (filter (\<lambda>r. list_all (\<lambda>cond. cond r) query) rows)
      in \<lparr> data = found, count = int (length found), filters_applied = filters \<rparr>)"

record interpretedQuery =
  original :: jsstring
  parsed_filters :: FilterStringsDto

record naturalLanguageResult =
  data_n :: "AnalyzedString list"
  count_n :: int
  interpreted_query :: interpretedQuery

definition filterByNaturalLanguage ::
  "AnalyzedString list \<Rightarrow> jsstring \<Rightarrow> exception + naturalLanguageResult" where
  "filterByNaturalLanguage rows queryText =
     (let filters = parseNaturalLanguageQuery queryText
      in if length (objectKeys filters) = 0
         then Inl (BadRequestException ''Unable to parse natural language query'')
         else (let result = findAll rows filters
               in Inr \<lparr> data_n = data result, count_n = count result,
                        interpreted_query =
                          \<lparr> original = queryText, parsed_filters = filters \<rparr> \<rparr>))"






text \<open>
  Helpers for the proofs: an expression whose every match sets group 1, and the
  conditions under which some step of the interpreter assigns a field.
\<close>

fun alwaysCaptures :: "regex \<Rightarrow> bool" where
  "alwaysCaptures (Group a) = True"
| "alwaysCaptures (Seq a b) = (alwaysCaptures a \<or> alwaysCaptures b)"
| "alwaysCaptures (Alt a b) = (alwaysCaptures a \<and> alwaysCaptures b)"
| "alwaysCaptures (Lit l) = False"
| "alwaysCaptures (Class p) = False"
| "alwaysCaptures (PlusClass p) = False"
| "alwaysCaptures (Opt a) = False"

definition matched :: "'a option \<Rightarrow> bool" where
  "matched m = (case m of None \<Rightarrow> False | Some x \<Rightarrow> True)"



text \<open>A character that means itself in a LIKE pattern.\<close>

definition plainChar :: "jsstring \<Rightarrow> bool" where
  "plainChar c = (c \<noteq> [0x25] \<and> c \<noteq> [0x5F] \<and> c \<noteq> [0x5C])"


section \<open>Properties of \<^verbatim>\<open>computeProperties\<close>\<close>

subsection \<open>The frequency map\<close>

lemma orZero_eq: "orZero v = (case v of None \<Rightarrow> 0 | Some n \<Rightarrow> n)"
  by (simp add: orZero_def split: option.splits)

lemma sum_update:
  "sum_list (map snd (AList.update k v m)) = sum_list (map snd m) + v - orZero (map_of m k)"
  by (induction m) (auto simp: orZero_eq)

lemma frequencyLoop_sum:
  "frequencySum (frequencyLoop cs m) = frequencySum m + int (length cs)"
  by (induction cs arbitrary: m) (simp_all add: frequencySum_def sum_update)

text \<open>The values of the frequency map add up to the number of code points.\<close>

lemma frequencySum_computeProperties:
  "frequencySum (character_frequency_map (computeProperties h s)) = int (length (codePoints s))"
  by (simp add: computeProperties_def Let_def frequencyLoop_sum) (simp add: frequencySum_def)

lemma length_codePoints_le: "length (codePoints s) \<le> length s"
  by (induction s rule: codePoints.induct) auto

lemma codePoints_no_pair:
  "list_all (\<lambda>u. \<not> isLeadSurrogate u) s \<Longrightarrow> codePoints s = map (\<lambda>u. [u]) s"
  by (induction s rule: codePoints.induct) auto

text \<open>On a string without lead surrogates the sum is the length.\<close>

lemma frequencySum_eq_length:
  assumes "list_all (\<lambda>u. \<not> isLeadSurrogate u) s"
  shows "frequencySum (character_frequency_map (computeProperties h s)) =
           length_p (computeProperties h s)"
  using assms
  by (simp add: frequencySum_computeProperties codePoints_no_pair)
     (simp add: computeProperties_def Let_def)

text \<open>
  Claim C1: for every string, the values of the frequency map add up to \<open>length\<close>.
  The string made of the two code units of U+1F600 (a lead and a trail surrogate) has
  length 2, and its frequency map has one key, with the count 1.
\<close>

theorem C1_frequency_sum_of_surrogate_pair:
  "length_p (computeProperties h [0xD83D, 0xDE00]) = 2
   \<and> character_frequency_map (computeProperties h [0xD83D, 0xDE00]) = [([0xD83D, 0xDE00], 1)]
   \<and> frequencySum (character_frequency_map (computeProperties h [0xD83D, 0xDE00])) = 1"
  by (simp add: computeProperties_def Let_def frequencySum_def isLeadSurrogate_def
        isTrailSurrogate_def orZero_def)

subsection \<open>The palindrome flag\<close>







subsection \<open>The word count\<close>

lemma runStarts_dropWhile: "runStarts True (dropWhile isWhiteSpace s) = runStarts True s"
  by (induction s) auto

text \<open>The pieces of \<open>splitWs\<close> that are not empty, counted.\<close>

lemma splitWs_count:
  "length (filter (\<lambda>w. length w > 0) (splitWs s cur)) =
     (if cur \<noteq> [] then 1 + runStarts False s else runStarts True s)"
proof (induction s cur rule: splitWs.induct)
  case (1 cur)
  then show ?case by simp
next
  case (2 x xs cur)
  show ?case
  proof (cases "isWhiteSpace x")
    case True
    with 2 show ?thesis by (simp add: runStarts_dropWhile)
  next
    case False
    with 2 show ?thesis by simp
  qed
qed

lemma runStarts_index:
  "runStarts p s =
     length (filter (\<lambda>i. \<not> isWhiteSpace (s ! i) \<and> (if i = 0 then p else isWhiteSpace (s ! (i - 1))))
       [0..<length s])"
proof (induction s arbitrary: p)
  case Nil
  then show ?case by simp
next
  case (Cons x xs)
  have up: "[0..<length (x # xs)] = 0 # map Suc [0..<length xs]"
    by (simp add: upt_conv_Cons map_Suc_upt del: upt_Suc)
  have "length (filter (\<lambda>i. \<not> isWhiteSpace ((x # xs) ! i) \<and>
           (if i = 0 then p else isWhiteSpace ((x # xs) ! (i - 1)))) (map Suc [0..<length xs]))
        = length (filter (\<lambda>i. \<not> isWhiteSpace (xs ! i) \<and>
           (if i = 0 then isWhiteSpace x else isWhiteSpace (xs ! (i - 1)))) [0..<length xs])"
    unfolding filter_map length_map o_def
    by (rule arg_cong [where f = length], rule filter_cong) (auto simp: nth_Cons split: nat.splits)
  then show ?case
    unfolding up by (simp add: Cons.IH del: upt_Suc)
qed

lemma runStarts_tokenStarts: "runStarts True s = length (tokenStarts s)"
  unfolding runStarts_index tokenStarts_def
  by (rule arg_cong [where f = length], rule filter_cong) auto

lemma runStarts_all_ws: "list_all isWhiteSpace s \<Longrightarrow> runStarts p s = 0"
  by (induction s arbitrary: p) auto

lemma runStarts_append_ws: "list_all isWhiteSpace t \<Longrightarrow> runStarts p (s @ t) = runStarts p s"
  by (induction s arbitrary: p) (auto simp: runStarts_all_ws)

lemma rev_dropWhile_rev: "rev (dropWhile P (rev s)) @ rev (takeWhile P (rev s)) = s"
  by (metis rev_append rev_rev_ident takeWhile_dropWhile_id)

lemma runStarts_strip_end: "runStarts p (rev (dropWhile isWhiteSpace (rev s))) = runStarts p s"
proof -
  have "list_all isWhiteSpace (rev (takeWhile isWhiteSpace (rev s)))"
    by (simp add: list_all_iff) (meson set_takeWhileD)
  from runStarts_append_ws [OF this, of p "rev (dropWhile isWhiteSpace (rev s))"]
  show ?thesis by (simp add: rev_dropWhile_rev)
qed

lemma runStarts_trim: "runStarts True (trim s) = runStarts True s"
  by (simp add: trim_def runStarts_strip_end runStarts_dropWhile)

lemma word_count_runStarts: "word_count (computeProperties h s) = int (runStarts True s)"
  using splitWs_count [of "trim s" "[]"]
  by (simp add: computeProperties_def Let_def runStarts_trim)

text \<open>Trimming does not change the tokens that are counted.\<close>

lemma tokenStarts_trim: "length (tokenStarts (trim s)) = length (tokenStarts s)"
  by (simp add: runStarts_tokenStarts [symmetric] runStarts_trim)

lemma word_count_example: "word_count (computeProperties h (js ''a  b   c'')) = 3"
  unfolding word_count_runStarts by code_simp

text \<open>
  Claim C10: \<open>word_count\<close> is the number of maximal runs of non-whitespace in the
  trimmed string; it is 0 for an empty string and for a string of whitespace only, and
  3 for "a  b   c".
\<close>

theorem C10_word_count:
  "word_count (computeProperties h s) = int (length (tokenStarts (trim s)))
   \<and> (list_all isWhiteSpace s \<longrightarrow> word_count (computeProperties h s) = 0)
   \<and> word_count (computeProperties h (js ''a  b   c'')) = 3"
proof (intro conjI impI)
  show "word_count (computeProperties h s) = int (length (tokenStarts (trim s)))"
    by (simp only: word_count_runStarts tokenStarts_trim runStarts_tokenStarts)
  show "word_count (computeProperties h s) = 0" if "list_all isWhiteSpace s"
    using that by (simp add: word_count_runStarts runStarts_all_ws)
  show "word_count (computeProperties h (js ''a  b   c'')) = 3"
    by (rule word_count_example)
qed

theorem C10_word_count_witness:
  "list_all isWhiteSpace (js ''   '')
   \<and> word_count (computeProperties (\<lambda>v. []) (js ''   '')) = 0
   \<and> word_count (computeProperties (\<lambda>v. []) []) = 0"
proof -
  have ws: "list_all isWhiteSpace (js ''   '')" by code_simp
  have e: "list_all isWhiteSpace []" by simp
  from C10_word_count [of "\<lambda>v. []" "js ''   ''"] ws
  have a: "word_count (computeProperties (\<lambda>v. []) (js ''   '')) = 0" by blast
  from C10_word_count [of "\<lambda>v. []" "[]"] e
  have b: "word_count (computeProperties (\<lambda>v. []) []) = 0" by blast
  from ws a b show ?thesis by blast
qed

section \<open>Properties of the interpreter\<close>

subsection \<open>Substrings\<close>

lemma startsWith_iff: "startsWith s p = (\<exists>post. s = p @ post)"
  by (induction s p rule: startsWith.induct) auto

lemma includes_str_iff: "includes_str s sub = (\<exists>pre post. s = pre @ sub @ post)"
proof (induction s)
  case Nil
  then show ?case by auto
next
  case (Cons x xs)
  show ?case
  proof
    assume "includes_str (x # xs) sub"
    then consider "startsWith (x # xs) sub" | "includes_str xs sub" by auto
    then show "\<exists>pre post. x # xs = pre @ sub @ post"
    proof cases
      case 1
      then obtain post where "x # xs = sub @ post" by (auto simp: startsWith_iff)
      then have "x # xs = [] @ sub @ post" by simp
      then show ?thesis by blast
    next
      case 2
      then obtain pre post where "xs = pre @ sub @ post" using Cons.IH by auto
      then have "x # xs = (x # pre) @ sub @ post" by simp
      then show ?thesis by blast
    qed
  next
    assume "\<exists>pre post. x # xs = pre @ sub @ post"
    then obtain pre post where e: "x # xs = pre @ sub @ post" by auto
    show "includes_str (x # xs) sub"
    proof (cases pre)
      case Nil
      with e have "startsWith (x # xs) sub" by (auto simp: startsWith_iff)
      then show ?thesis by simp
    next
      case (Cons y ys)
      with e have "xs = ys @ sub @ post" by simp
      then have "includes_str xs sub" using Cons.IH by auto
      then show ?thesis by simp
    qed
  qed
qed

lemma includes_str_trans:
  assumes "includes_str s a" and "includes_str a b"
  shows "includes_str s b"
proof -
  from assms obtain p1 q1 p2 q2 where "s = p1 @ a @ q1" and "a = p2 @ b @ q2"
    by (auto simp: includes_str_iff)
  then have "s = (p1 @ p2) @ b @ (q2 @ q1)" by simp
  then show ?thesis unfolding includes_str_iff by blast
qed

lemma vowel_has_e: "includes_str (js ''vowel'') (js ''e'')"
  by code_simp

lemma vowelLoop_result:
  assumes "includes_str lq (js ''e'')"
  shows "contains_character (vowelLoop vowels lq f) =
           Some (if includes_str lq (js ''a'') then js ''a'' else js ''e'')"
  using assms by (simp add: vowels_def)

lemma detectVowel_result:
  assumes "includes_str lq (js ''vowel'')"
  shows "contains_character (detectVowel lq f) =
           Some (if includes_str lq (js ''a'') then js ''a'' else js ''e'')"
proof -
  have "includes_str lq (js ''e'')"
    using assms vowel_has_e by (rule includes_str_trans)
  then show ?thesis using assms by (simp add: detectVowel_def vowelLoop_result)
qed

lemma applyRules_vowel:
  assumes "includes_str lq (js ''vowel'')"
  shows "contains_character (applyRules lq f) =
           Some (if includes_str lq (js ''a'') then js ''a'' else js ''e'')"
  unfolding applyRules_def using assms by (rule detectVowel_result)

subsection \<open>Matches and their captures\<close>

lemma rx_ends_keeps_capture:
  "(s', c') \<in> set (rx_ends r s c) \<Longrightarrow> c \<noteq> None \<Longrightarrow> c' \<noteq> None"
proof (induction r arbitrary: s c s' c')
  case (Seq a b)
  then show ?case by (fastforce)
next
  case (Class p)
  then show ?case by (auto split: list.splits if_splits)
qed (auto split: if_splits)

lemma rx_ends_captures:
  "alwaysCaptures r \<Longrightarrow> (s', c') \<in> set (rx_ends r s c) \<Longrightarrow> c' \<noteq> None"
proof (induction r arbitrary: s c s' c')
  case (Seq a b)
  from Seq.prems(2) obtain s1 c1 where
    a: "(s1, c1) \<in> set (rx_ends a s c)" and b: "(s', c') \<in> set (rx_ends b s1 c1)"
    by auto
  show ?case
  proof (cases "alwaysCaptures b")
    case True
    then show ?thesis using Seq.IH(2) b by blast
  next
    case False
    with Seq.prems(1) have "alwaysCaptures a" by simp
    then have "c1 \<noteq> None" using Seq.IH(1) a by blast
    then show ?thesis using rx_ends_keeps_capture b by blast
  qed
qed auto

lemma match_str_Some:
  "match_str s r = Some c \<Longrightarrow> \<exists>t s'. (s', c) \<in> set (rx_ends r t None)"
proof (induction s)
  case Nil
  then show ?case by (auto split: list.splits) (metis list.set_intros(1))
next
  case (Cons x xs)
  show ?case
  proof (cases "rx_ends r (x # xs) None")
    case Nil
    with Cons show ?thesis by simp
  next
    case (Cons e es)
    with Cons.prems have "(fst e, c) \<in> set (rx_ends r (x # xs) None)"
      by (cases e) auto
    then show ?thesis by blast
  qed
qed

lemma match_str_captures: "alwaysCaptures r \<Longrightarrow> match_str s r \<noteq> Some None"
  using match_str_Some rx_ends_captures by blast


lemma match_cases:
  assumes "alwaysCaptures r"
  obtains "match_str s r = None" | n where "match_str s r = Some (Some n)"
  using match_str_captures [OF assms, of s] by (cases "match_str s r") auto



text \<open>What a match of the expressions with a number says about the text.\<close>

lemma match_str_first:
  "match_str s r = Some c \<Longrightarrow> \<exists>pre t s' rest. s = pre @ t \<and> rx_ends r t None = (s', c) # rest"
proof (induction s)
  case Nil
  then show ?case by (auto split: list.splits)
next
  case (Cons x xs)
  show ?case
  proof (cases "rx_ends r (x # xs) None")
    case Nil
    with Cons.prems have "match_str xs r = Some c" by simp
    then obtain pre t s' rest where "xs = pre @ t" "rx_ends r t None = (s', c) # rest"
      using Cons.IH by blast
    then have "x # xs = (x # pre) @ t \<and> rx_ends r t None = (s', c) # rest" by simp
    then show ?thesis by blast
  next
    case (Cons e es)
    with Cons.prems have "rx_ends r (x # xs) None = (fst e, c) # es"
      by (cases e) auto
    then have "x # xs = [] @ (x # xs) \<and> rx_ends r (x # xs) None = (fst e, c) # es" by simp
    then show ?thesis by blast
  qed
qed

lemma match_str_found:
  "rx_ends r t None \<noteq> [] \<Longrightarrow> matched (match_str (pre @ t) r)"
proof (induction pre)
  case Nil
  then show ?case by (cases t) (auto simp: matched_def split: list.splits)
next
  case (Cons x xs)
  then show ?case by (auto simp: matched_def split: list.splits)
qed

lemma rx_ends_digits:
  "rx_ends (Group (PlusClass p)) u c =
     map (\<lambda>n. (drop n u, Some (take n u))) (rev [1..<Suc (length (takeWhile p u))])"
proof -
  have "n \<le> length u" if "n \<in> set [1..<Suc (length (takeWhile p u))]" for n
    using that length_takeWhile_le [of p u] by auto
  then show ?thesis by (auto simp: rev_map [symmetric] min_def)
qed

lemma rx_ends_digits_first:
  assumes "rx_ends (Group (PlusClass p)) u c = e # es"
  shows "takeWhile p u \<noteq> [] \<and> e = (dropWhile p u, Some (takeWhile p u))"
proof -
  let ?k = "length (takeWhile p u)"
  from assms have m:
    "map (\<lambda>n. (drop n u, Some (take n u))) (rev [1..<Suc ?k]) = e # es"
    by (simp only: rx_ends_digits)
  have k: "?k \<noteq> 0"
  proof
    assume "?k = 0"
    with m show False by simp
  qed
  then obtain n where n: "?k = Suc n" by (cases ?k) auto
  have "rev [1..<Suc (Suc n)] = Suc n # rev [1..<Suc n]" by simp
  with m n have "e = (drop ?k u, Some (take ?k u))" by simp
  moreover have "take ?k u = takeWhile p u" by (simp add: takeWhile_eq_take [symmetric])
  moreover have "drop ?k u = dropWhile p u" by (simp add: dropWhile_eq_drop [symmetric])
  ultimately show ?thesis using k by auto
qed

lemma rx_ends_digits_nonempty:
  assumes "takeWhile p u \<noteq> []"
  shows "rx_ends (Group (PlusClass p)) u c \<noteq> []"
proof -
  from assms obtain n where "length (takeWhile p u) = Suc n"
    by (cases "takeWhile p u") auto
  then show ?thesis by (simp only: rx_ends_digits) simp
qed

lemma rx_ends_lit:
  "rx_ends (Seq (Lit l) g) t c = (if startsWith t l then rx_ends g (drop (length l) t) c else [])"
  by simp

lemma rx_ends_lit_opt:
  "rx_ends (Seq (Lit l1) (Seq (Opt (Lit l2)) g)) t c =
     (if startsWith t l1
      then rx_ends (Seq (Lit l2) g) (drop (length l1) t) c @ rx_ends g (drop (length l1) t) c
      else [])"
  by simp

lemma startsWith_drop: "startsWith t l \<Longrightarrow> t = l @ drop (length l) t"
  by (induction t l rule: startsWith.induct) auto

lemma startsWith_append: "startsWith (l @ u) l"
  by (induction l) auto

lemma phrase_number_match:
  assumes "match_str s (Seq (Lit l) (Group (PlusClass p))) = Some c"
  shows "\<exists>pre u. s = pre @ l @ u \<and> takeWhile p u \<noteq> [] \<and> c = Some (takeWhile p u)"
proof -
  from match_str_first [OF assms] obtain pre t s' rest where
    s: "s = pre @ t" and e: "rx_ends (Seq (Lit l) (Group (PlusClass p))) t None = (s', c) # rest"
    by blast
  from e have sw: "startsWith t l"
    unfolding rx_ends_lit by (auto split: if_splits)
  from e sw have "rx_ends (Group (PlusClass p)) (drop (length l) t) None = (s', c) # rest"
    unfolding rx_ends_lit by (simp only: if_True)
  from rx_ends_digits_first [OF this]
  have "takeWhile p (drop (length l) t) \<noteq> []" and "c = Some (takeWhile p (drop (length l) t))"
    by auto
  moreover from s startsWith_drop [OF sw] have "s = pre @ l @ drop (length l) t" by simp
  ultimately show ?thesis by blast
qed

lemma phrase_number_found:
  assumes "takeWhile p u \<noteq> []"
  shows "matched (match_str (pre @ l @ u) (Seq (Lit l) (Group (PlusClass p))))"
proof (rule match_str_found)
  show "rx_ends (Seq (Lit l) (Group (PlusClass p))) (l @ u) None \<noteq> []"
    unfolding rx_ends_lit using rx_ends_digits_nonempty [OF assms, of None]
    by (simp add: startsWith_append del: rx_ends.simps)
qed

lemma exact_length_match:
  assumes "match_str s exactLengthRx = Some c"
  shows "\<exists>pre u. (s = pre @ js ''length '' @ u \<or> s = pre @ js ''length of '' @ u)
           \<and> takeWhile isDigit u \<noteq> [] \<and> c = Some (takeWhile isDigit u)"
proof -
  from match_str_first [OF assms] obtain pre t s' rest where
    s: "s = pre @ t" and e: "rx_ends exactLengthRx t None = (s', c) # rest"
    by blast
  let ?g = "Group (PlusClass isDigit)"
  let ?v = "drop (length (js ''length '')) t"
  let ?u = "drop (length (js ''of '')) ?v"
  from e have sw: "startsWith t (js ''length '')"
    unfolding exactLengthRx_def rx_ends_lit_opt by (auto split: if_splits)
  from e sw
  have e': "rx_ends (Seq (Lit (js ''of '')) ?g) ?v None @ rx_ends ?g ?v None = (s', c) # rest"
    unfolding exactLengthRx_def rx_ends_lit_opt by (simp only: if_True)
  note t = startsWith_drop [OF sw]
  have lo: "js ''length '' @ js ''of '' = js ''length of ''" by (simp add: js_def)
  show ?thesis
  proof (cases "rx_ends (Seq (Lit (js ''of '')) ?g) ?v None")
    case Nil
    with e' have d: "rx_ends ?g ?v None = (s', c) # rest" by (simp only: append_Nil)
    from rx_ends_digits_first [OF d]
    have "takeWhile isDigit ?v \<noteq> []" "c = Some (takeWhile isDigit ?v)" by auto
    moreover from s t have "s = pre @ js ''length '' @ ?v" by simp
    ultimately show ?thesis by blast
  next
    case (Cons e1 es1)
    then have sw2: "startsWith ?v (js ''of '')"
      unfolding rx_ends_lit by (auto split: if_splits)
    from Cons sw2 have d: "rx_ends ?g ?u None = e1 # es1"
      unfolding rx_ends_lit by (simp only: if_True)
    from e' Cons have "e1 = (s', c)" by (simp only: append_Cons list.inject)
    with rx_ends_digits_first [OF d]
    have "takeWhile isDigit ?u \<noteq> []" "c = Some (takeWhile isDigit ?u)" by auto
    moreover from s t startsWith_drop [OF sw2] have "s = pre @ js ''length of '' @ ?u"
      by (metis append.assoc lo)
    ultimately show ?thesis by blast
  qed
qed

lemma exact_length_found:
  assumes "takeWhile isDigit u \<noteq> []"
  shows "matched (match_str (pre @ js ''length '' @ u) exactLengthRx)"
    and "matched (match_str (pre @ js ''length of '' @ u) exactLengthRx)"
proof -
  let ?g = "Group (PlusClass isDigit)"
  have lo: "js ''length of '' = js ''length '' @ js ''of ''" by (simp add: js_def)
  have d: "rx_ends ?g u None \<noteq> []"
    using rx_ends_digits_nonempty [OF assms] .
  have "rx_ends exactLengthRx (js ''length '' @ u) None \<noteq> []"
    unfolding exactLengthRx_def rx_ends_lit_opt using d
    by (simp add: startsWith_append del: rx_ends.simps)
  then show "matched (match_str (pre @ js ''length '' @ u) exactLengthRx)"
    by (rule match_str_found)
  have "rx_ends exactLengthRx (js ''length '' @ js ''of '' @ u) None \<noteq> []"
    unfolding exactLengthRx_def unfolding rx_ends_lit_opt unfolding rx_ends_lit using d
    by (simp add: startsWith_append del: rx_ends.simps)
  then have "matched (match_str (pre @ js ''length '' @ js ''of '' @ u) exactLengthRx)"
    by (rule match_str_found)
  then show "matched (match_str (pre @ js ''length of '' @ u) exactLengthRx)"
    by (simp add: lo)
qed

subsection \<open>The fields of the result, one by one\<close>

lemma detectPalindrome_fields:
  "min_length (detectPalindrome lq f) = min_length f"
  "max_length (detectPalindrome lq f) = max_length f"
  "word_count_f (detectPalindrome lq f) = word_count_f f"
  "contains_character (detectPalindrome lq f) = contains_character f"
  by (simp_all add: detectPalindrome_def)

lemma detectWordCount_fields:
  "is_palindrome_f (detectWordCount lq f) = is_palindrome_f f"
  "min_length (detectWordCount lq f) = min_length f"
  "max_length (detectWordCount lq f) = max_length f"
  "contains_character (detectWordCount lq f) = contains_character f"
  by (simp_all add: detectWordCount_def)

lemma detectLongerThan_fields:
  "is_palindrome_f (detectLongerThan lq f) = is_palindrome_f f"
  "max_length (detectLongerThan lq f) = max_length f"
  "word_count_f (detectLongerThan lq f) = word_count_f f"
  "contains_character (detectLongerThan lq f) = contains_character f"
  by (simp_all add: detectLongerThan_def split: option.splits)

lemma detectShorterThan_fields:
  "is_palindrome_f (detectShorterThan lq f) = is_palindrome_f f"
  "min_length (detectShorterThan lq f) = min_length f"
  "word_count_f (detectShorterThan lq f) = word_count_f f"
  "contains_character (detectShorterThan lq f) = contains_character f"
  by (simp_all add: detectShorterThan_def split: option.splits)

lemma detectExactLength_fields:
  "is_palindrome_f (detectExactLength lq f) = is_palindrome_f f"
  "word_count_f (detectExactLength lq f) = word_count_f f"
  "contains_character (detectExactLength lq f) = contains_character f"
  by (simp_all add: detectExactLength_def Let_def split: option.splits)

lemma detectContainsLetter_fields:
  "is_palindrome_f (detectContainsLetter lq f) = is_palindrome_f f"
  "min_length (detectContainsLetter lq f) = min_length f"
  "max_length (detectContainsLetter lq f) = max_length f"
  "word_count_f (detectContainsLetter lq f) = word_count_f f"
  by (simp_all add: detectContainsLetter_def split: option.splits)

lemma detectFirstVowel_fields:
  "is_palindrome_f (detectFirstVowel lq f) = is_palindrome_f f"
  "min_length (detectFirstVowel lq f) = min_length f"
  "max_length (detectFirstVowel lq f) = max_length f"
  "word_count_f (detectFirstVowel lq f) = word_count_f f"
  by (simp_all add: detectFirstVowel_def)

lemma vowelLoop_fields:
  "is_palindrome_f (vowelLoop vs lq f) = is_palindrome_f f"
  "min_length (vowelLoop vs lq f) = min_length f"
  "max_length (vowelLoop vs lq f) = max_length f"
  "word_count_f (vowelLoop vs lq f) = word_count_f f"
  by (induction vs) simp_all

lemma detectVowel_fields:
  "is_palindrome_f (detectVowel lq f) = is_palindrome_f f"
  "min_length (detectVowel lq f) = min_length f"
  "max_length (detectVowel lq f) = max_length f"
  "word_count_f (detectVowel lq f) = word_count_f f"
  by (simp_all add: detectVowel_def vowelLoop_fields)

lemmas other_fields = detectPalindrome_fields detectWordCount_fields detectLongerThan_fields
  detectShorterThan_fields detectExactLength_fields detectContainsLetter_fields
  detectFirstVowel_fields detectVowel_fields



lemma applyRules_min_length:
  "min_length (applyRules lq f) =
     (case match_str lq exactLengthRx of
        Some (Some n) \<Rightarrow> Some (parseInt10 n)
      | _ \<Rightarrow> (case match_str lq longerThanRx of
                Some (Some n) \<Rightarrow> Some (parseInt10 n + 1)
              | _ \<Rightarrow> min_length f))"
  by (simp add: applyRules_def other_fields)
     (simp add: detectExactLength_def detectLongerThan_def other_fields Let_def split: option.splits)

lemma applyRules_max_length:
  "max_length (applyRules lq f) =
     (case match_str lq exactLengthRx of
        Some (Some n) \<Rightarrow> Some (parseInt10 n)
      | _ \<Rightarrow> (case match_str lq shorterThanRx of
                Some (Some n) \<Rightarrow> Some (parseInt10 n - 1)
              | _ \<Rightarrow> max_length f))"
  by (simp add: applyRules_def other_fields)
     (simp add: detectExactLength_def detectShorterThan_def other_fields Let_def split: option.splits)


lemma filter_eq_empty:
  "(f = emptyFilters) =
     (is_palindrome_f f = None \<and> min_length f = None \<and> max_length f = None
      \<and> word_count_f f = None \<and> contains_character f = None)"
  by (cases f) (auto simp: emptyFilters_def)

lemma objectKeys_empty: "(objectKeys f = []) = (f = emptyFilters)"
  by (simp add: filter_eq_empty objectKeys_def split: option.splits)



subsection \<open>The claims about the interpreter\<close>

lemma parse_vowel:
  assumes "includes_str (toLowerCase q) (js ''vowel'')"
  shows "contains_character (parseNaturalLanguageQuery q) =
           Some (if includes_str (toLowerCase q) (js ''a'') then js ''a'' else js ''e'')"
  using assms by (simp add: parseNaturalLanguageQuery_def applyRules_vowel)

lemma parse_exact_length:
  assumes "match_str (toLowerCase q) exactLengthRx = Some (Some n)"
  shows "min_length (parseNaturalLanguageQuery q) = Some (parseInt10 n)
         \<and> max_length (parseNaturalLanguageQuery q) = Some (parseInt10 n)"
  using assms
  by (simp add: parseNaturalLanguageQuery_def applyRules_min_length applyRules_max_length)

lemma longer_than_match:
  assumes "match_str s longerThanRx = Some c"
  shows "\<exists>pre u. s = pre @ js ''longer than '' @ u \<and> takeWhile isDigit u \<noteq> []
           \<and> c = Some (takeWhile isDigit u)"
  using assms unfolding longerThanRx_def by (rule phrase_number_match)

lemma shorter_than_match:
  assumes "match_str s shorterThanRx = Some c"
  shows "\<exists>pre u. s = pre @ js ''shorter than '' @ u \<and> takeWhile isDigit u \<noteq> []
           \<and> c = Some (takeWhile isDigit u)"
  using assms unfolding shorterThanRx_def by (rule phrase_number_match)

lemma longer_than_found:
  "takeWhile isDigit u \<noteq> [] \<Longrightarrow> matched (match_str (pre @ js ''longer than '' @ u) longerThanRx)"
  unfolding longerThanRx_def by (rule phrase_number_found)

lemma shorter_than_found:
  "takeWhile isDigit u \<noteq> [] \<Longrightarrow> matched (match_str (pre @ js ''shorter than '' @ u) shorterThanRx)"
  unfolding shorterThanRx_def by (rule phrase_number_found)

lemma parse_exact_length_phrase:
  assumes "toLowerCase q = pre @ js ''length '' @ u \<or> toLowerCase q = pre @ js ''length of '' @ u"
    and "takeWhile isDigit u \<noteq> []"
  shows "\<exists>pre' u'. (toLowerCase q = pre' @ js ''length '' @ u'
                     \<or> toLowerCase q = pre' @ js ''length of '' @ u')
           \<and> takeWhile isDigit u' \<noteq> []
           \<and> min_length (parseNaturalLanguageQuery q) = Some (parseInt10 (takeWhile isDigit u'))
           \<and> max_length (parseNaturalLanguageQuery q) = Some (parseInt10 (takeWhile isDigit u'))"
proof -
  from assms exact_length_found [OF assms(2), of pre]
  have "matched (match_str (toLowerCase q) exactLengthRx)" by auto
  then obtain c where c: "match_str (toLowerCase q) exactLengthRx = Some c"
    by (auto simp: matched_def split: option.splits)
  from exact_length_match [OF c] obtain pre' u' where
    p: "toLowerCase q = pre' @ js ''length '' @ u' \<or> toLowerCase q = pre' @ js ''length of '' @ u'"
    and d: "takeWhile isDigit u' \<noteq> []" and c': "c = Some (takeWhile isDigit u')"
    by blast
  from c c' parse_exact_length [of q "takeWhile isDigit u'"]
  have "min_length (parseNaturalLanguageQuery q) = Some (parseInt10 (takeWhile isDigit u'))
        \<and> max_length (parseNaturalLanguageQuery q) = Some (parseInt10 (takeWhile isDigit u'))"
    by simp
  with p d show ?thesis by blast
qed

lemma parse_first_vowel:
  assumes "includes_str (toLowerCase q) (js ''first vowel'')"
  shows "contains_character (parseNaturalLanguageQuery q) =
           Some (if includes_str (toLowerCase q) (js ''a'') then js ''a'' else js ''e'')"
proof -
  have "includes_str (js ''first vowel'') (js ''vowel'')" by code_simp
  with assms have "includes_str (toLowerCase q) (js ''vowel'')" by (rule includes_str_trans)
  then show ?thesis by (rule parse_vowel)
qed

lemma interpreter_scenarios:
  "parseNaturalLanguageQuery (js ''all single word palindromic strings'') =
     emptyFilters\<lparr>is_palindrome_f := Some True, word_count_f := Some 1\<rparr>"
  "parseNaturalLanguageQuery (js ''strings longer than 10 characters'') =
     emptyFilters\<lparr>min_length := Some 11\<rparr>"
  "parseNaturalLanguageQuery (js ''strings shorter than 5 characters'') =
     emptyFilters\<lparr>max_length := Some 4\<rparr>"
  "parseNaturalLanguageQuery (js ''palindromic strings that contain the letter z'') =
     emptyFilters\<lparr>is_palindrome_f := Some True, contains_character := Some (js ''z'')\<rparr>"
  "parseNaturalLanguageQuery (js ''longer than 3 and shorter than 9 with length of 12'') =
     emptyFilters\<lparr>min_length := Some 12, max_length := Some 12\<rparr>"
  "parseNaturalLanguageQuery (js ''contain the letter z and a vowel'') =
     emptyFilters\<lparr>contains_character := Some (js ''a'')\<rparr>"
  by code_simp+

text \<open>
  Claim C2: when the folded text contains "vowel" but not "first vowel", the vowel
  scan sets \<open>contains_character\<close> to the first of a, e, i, o, u that occurs in the
  query text, whatever the letter rule had set (lemma \<open>parse_vowel\<close>: that is "a"
  if the text has an "a", and "e" otherwise, since "vowel" has an "e"); and the
  vowel scan does not run when "first vowel" was matched. On the query
  "the first vowel" the step for "first vowel" sets "a", and the vowel scan runs
  after it and replaces "a" by "e".
\<close>

theorem C2_vowel_scan_after_first_vowel:
  "includes_str (toLowerCase (js ''the first vowel'')) (js ''first vowel'')
   \<and> contains_character
        (detectFirstVowel (toLowerCase (js ''the first vowel'')) emptyFilters) = Some (js ''a'')
   \<and> contains_character
        (detectVowel (toLowerCase (js ''the first vowel''))
          (detectFirstVowel (toLowerCase (js ''the first vowel'')) emptyFilters)) = Some (js ''e'')
   \<and> contains_character (parseNaturalLanguageQuery (js ''the first vowel'')) = Some (js ''e'')"
  by code_simp

text \<open>
  Claim C3: a query whose folded text contains "first vowel" gets
  \<open>contains_character = 'a'\<close>, as "strings with the first vowel" does. That query has
  no "a" in it, and the result of the interpreter is \<open>contains_character = 'e'\<close>.
\<close>

theorem C3_first_vowel_gives_e:
  "parseNaturalLanguageQuery (js ''strings with the first vowel'') =
     emptyFilters\<lparr>contains_character := Some (js ''e'')\<rparr>"
  by code_simp

text \<open>
  Claim C4: a query that matches "length [of] N" or "N characters long" gets
  \<open>min_length = N\<close> and \<open>max_length = N\<close>, over what "longer than" and
  "shorter than" had set. The first form does (lemma \<open>parse_exact_length\<close>). The
  second form is in the comment of the source only: on "strings 5 characters long"
  no step assigns a field, and the query is rejected as unparsable.
\<close>

theorem C4_characters_long_not_detected:
  "parseNaturalLanguageQuery (js ''strings 5 characters long'') = emptyFilters
   \<and> filterByNaturalLanguage rows (js ''strings 5 characters long'') =
       Inl (BadRequestException ''Unable to parse natural language query'')"
proof -
  have "parseNaturalLanguageQuery (js ''strings 5 characters long'') = emptyFilters"
    by code_simp
  then show ?thesis
    by (simp add: filterByNaturalLanguage_def objectKeys_empty)
qed




section \<open>Properties of the matcher\<close>

lemma matches_fields:
  "matches r f =
     ((case is_palindrome_f f of None \<Rightarrow> True | Some b \<Rightarrow> is_palindrome (properties r) = b)
      \<and> (case min_length f of None \<Rightarrow> True | Some n \<Rightarrow> n \<le> length_p (properties r))
      \<and> (case max_length f of None \<Rightarrow> True | Some n \<Rightarrow> length_p (properties r) \<le> n)
      \<and> (case word_count_f f of None \<Rightarrow> True | Some n \<Rightarrow> word_count (properties r) = n)
      \<and> (case contains_character f of None \<Rightarrow> True
          | Some ch \<Rightarrow> ch = [] \<or> likeMatch (codePoints (js ''%'' @ ch @ js ''%''))
                                   (codePoints (value_s r))))"
  by (simp add: matches_def buildQuery_def andWhere_def Let_def split: option.splits)




lemma codePoints_snoc:
  "\<not> isTrailSurrogate u \<Longrightarrow> codePoints (s @ [u]) = codePoints s @ [[u]]"
  by (induction s rule: codePoints.induct) auto

lemma codePoints_cons:
  "\<not> isLeadSurrogate u \<Longrightarrow> codePoints (u # s) = [u] # codePoints s"
  by (cases s) auto

lemma percent_plain: "\<not> isLeadSurrogate 0x25" "\<not> isTrailSurrogate 0x25"
  by (simp_all add: isLeadSurrogate_def isTrailSurrogate_def)

lemma pattern_codePoints:
  "codePoints (js ''%'' @ ch @ js ''%'') = [0x25] # codePoints ch @ [[0x25]]"
proof -
  have "js ''%'' = [0x25]" by code_simp
  then show ?thesis
    using codePoints_snoc [OF percent_plain(2), of "0x25 # ch"]
    by (simp add: codePoints_cons percent_plain codePoints_snoc)
qed

lemma likePatternOk_last:
  "ps \<noteq> [] \<Longrightarrow> last ps \<noteq> [0x5C] \<Longrightarrow> likePatternOk ps"
  by (induction ps rule: likePatternOk.induct) (auto split: if_splits)

lemma likePatternOk_findAll: "likePatternOk (codePoints (js ''%'' @ ch @ js ''%''))"
  by (rule likePatternOk_last) (simp_all add: pattern_codePoints)

lemma like_percent_step:
  "likeMatch [] t = (t = [])"
  "likeMatch ([0x25] # ps) [] = likeMatch ps []"
  "likeMatch ([0x25] # ps) (x # t) = (likeMatch ps (x # t) \<or> likeMatch ([0x25] # ps) t)"
  by simp_all

lemma like_plain_step:
  assumes "plainChar c"
  shows "likeMatch (c # ps) [] = False"
    and "likeMatch (c # ps) (x # t) = (x = c \<and> likeMatch ps t)"
  using assms by (simp_all add: plainChar_def)

lemma like_underscore_step:
  "likeMatch ([0x5F] # ps) [] = False"
  "likeMatch ([0x5F] # ps) (x # t) = likeMatch ps t"
  by simp_all

lemma like_backslash_step:
  "likeMatch ([0x5C] # q # ps) [] = False"
  "likeMatch ([0x5C] # q # ps) (x # t) = (x = q \<and> likeMatch ps t)"
  by simp_all

lemma likeMatch_percent: "likeMatch [[0x25]] t"
  by (induction t) (simp_all add: like_percent_step del: likeMatch.simps(2))

lemma likeMatch_contains:
  assumes "plainChar c"
  shows "likeMatch [[0x25], c, [0x25]] t = (c \<in> set t)"
  by (induction t)
     (auto simp add: like_percent_step like_plain_step [OF assms] likeMatch_percent
        simp del: likeMatch.simps(2))

lemma likeMatch_underscore: "likeMatch [[0x25], [0x5F], [0x25]] t = (t \<noteq> [])"
  by (induction t)
     (auto simp add: like_percent_step like_underscore_step likeMatch_percent
        simp del: likeMatch.simps(2))

lemma likeMatch_percent3: "likeMatch [[0x25], [0x25], [0x25]] t"
  by (induction t) (simp_all add: like_percent_step likeMatch_percent del: likeMatch.simps(2))

lemma likeMatch_backslash: "likeMatch [[0x25], [0x5C], [0x25]] t = (t \<noteq> [] \<and> last t = [0x25])"
  by (induction t)
     (auto simp add: like_percent_step like_backslash_step simp del: likeMatch.simps(2))

lemma matches_contains:
  "matches r (emptyFilters\<lparr>contains_character := Some ch\<rparr>) =
     (ch = [] \<or> likeMatch ([0x25] # codePoints ch @ [[0x25]]) (codePoints (value_s r)))"
  by (simp add: matches_fields emptyFilters_def pattern_codePoints del: likeMatch.simps(2))

lemma matches_contains_plain:
  assumes "codePoints ch = [c]" and "plainChar c"
  shows "matches r (emptyFilters\<lparr>contains_character := Some ch\<rparr>) =
           (c \<in> set (codePoints (value_s r)))"
proof -
  from assms(1) have "ch \<noteq> []" by auto
  then show ?thesis
    using assms
    by (simp add: matches_contains likeMatch_contains del: likeMatch.simps(2))
qed

lemma matches_contains_underscore:
  "matches r (emptyFilters\<lparr>contains_character := Some [0x5F]\<rparr>) = (value_s r \<noteq> [])"
proof -
  have "(codePoints s = []) = (s = [])" for s
    by (induction s rule: codePoints.induct) auto
  then show ?thesis
    by (simp add: matches_contains likeMatch_underscore del: likeMatch.simps(2))
qed

lemma matches_contains_percent:
  "matches r (emptyFilters\<lparr>contains_character := Some [0x25]\<rparr>)"
  by (simp add: matches_contains likeMatch_percent3 percent_plain codePoints_cons
        del: likeMatch.simps(2))

text \<open>
  For a value without surrogate pairs and a character that is none of \<^verbatim>\<open>%\<close>,
  \<^verbatim>\<open>_\<close> and the backslash, the filter is the test \<^verbatim>\<open>value.includes(c)\<close>.
\<close>

lemma includes_str_unit: "includes_str s [u] = (u \<in> set s)"
  by (induction s) auto

lemma matches_contains_unit:
  assumes "list_all (\<lambda>x. \<not> isLeadSurrogate x) (value_s r)"
    and "u \<noteq> 0x25" and "u \<noteq> 0x5F" and "u \<noteq> 0x5C"
  shows "matches r (emptyFilters\<lparr>contains_character := Some [u]\<rparr>) = includes_str (value_s r) [u]"
proof -
  have "plainChar [u]" using assms(2-4) by (simp add: plainChar_def)
  moreover have "codePoints [u] = [[u]]" by simp
  ultimately have "matches r (emptyFilters\<lparr>contains_character := Some [u]\<rparr>) =
      ([u] \<in> set (codePoints (value_s r)))"
    by (rule matches_contains_plain [rotated])
  also have "\<dots> = (u \<in> set (value_s r))"
    using assms(1) by (auto simp: codePoints_no_pair)
  finally show ?thesis by (simp add: includes_str_unit)
qed

text \<open>
  Claim C5: with \<open>contains_character\<close> set to a single character, a record matches
  exactly when the character occurs in its value, for every character, \<^verbatim>\<open>%\<close> and
  \<^verbatim>\<open>_\<close> included. That holds for every character but \<^verbatim>\<open>%\<close>, \<^verbatim>\<open>_\<close> and the backslash
  (lemmas \<open>matches_contains_plain\<close> and \<open>matches_contains_unit\<close>). The character is put into a LIKE pattern as it
  is: the record of "abc", which has no \<^verbatim>\<open>_\<close>, matches the filter for \<^verbatim>\<open>_\<close> and is returned
  by \<^verbatim>\<open>findAll\<close>.
\<close>

theorem C5_underscore_is_a_wildcard:
  "(case create h t [] (js ''abc'') of
      Inl e \<Rightarrow> False
    | Inr (r, rows) \<Rightarrow>
        value_s r = js ''abc''
        \<and> \<not> includes_str (value_s r) (js ''_'')
        \<and> matches r (emptyFilters\<lparr>contains_character := Some (js ''_'')\<rparr>)
        \<and> data (findAll rows (emptyFilters\<lparr>contains_character := Some (js ''_'')\<rparr>)) = [r])"
proof -
  have u: "js ''_'' = [0x5F]" by code_simp
  have n: "\<not> includes_str (js ''abc'') (js ''_'')" by code_simp
  have v: "js ''abc'' \<noteq> []" by code_simp
  show ?thesis
    unfolding u using n v
    by (simp add: create_def Let_def findAll_def matches_contains_underscore
          matches_def [symmetric] u del: likeMatch.simps(2))
qed



end
